theory Spec2Isabelle
  imports Main
begin

section \<open>The purge tool of st2: tools/purge\_executions.py\<close>

text \<open>
  The script selects ActionExecution documents that ended before a cutoff, filters them
  in memory with \<open>_should_delete\<close>, and deletes each one together with the LiveAction
  document its embedded \<open>liveaction\<close> dictionary refers to. The model below follows the
  script function by function. Every store call, every log call and the module-level
  counter are written into an explicit state, and every exception is a value.
\<close>

subsection \<open>Data\<close>

text \<open>
  An ActionExecution document. The script reads \<open>status\<close>, \<open>start_timestamp\<close>,
  \<open>end_timestamp\<close> and the embedded dictionary \<open>liveaction\<close>, in which it looks up
  the keys \<open>'id'\<close> (with \<open>.get\<close>, so the key may be absent) and \<open>'action'\<close> (with a
  subscript, which raises KeyError when the key is absent). Timestamps are points in
  time, here integers (microseconds).
\<close>

record execution_db =
  ae_id :: string
  status :: string
  start_timestamp :: int
  end_timestamp :: int
  liveaction :: "(string \<times> string) list"

text \<open>A LiveAction document: the child that an execution refers to by id.\<close>

record liveaction_db =
  la_id :: string
  la_action :: string

datatype error = KeyError | StoreError | DoesNotExist | ValueError

text \<open>The calls the script makes on the persistence layer, in the order they are made.\<close>

datatype store_call =
    Query int
  | GetById "string option"
  | DeleteExecution string
  | DeleteLiveAction string

text \<open>The log lines of the script, one constructor per message of the source.\<close>

datatype level = ERROR | INFO | EXCEPTION

datatype message =
    Invalid_LiveAction_id execution_db
  | LiveAction_not_found "string option"
  | Exception_deleting_Execution execution_db
  | Zombie_LiveAction liveaction_db
  | Specify_a_valid_timestamp
  | Purging_older_than int
  | Total_to_delete nat
  | Total_deleted nat
  | Please_supply_a_timestamp

text \<open>
  The state the script runs in: the two collections of the store, the module-level
  counter \<open>DELETED_COUNT\<close> (line 41), the log, and the record of the store calls.
  The persistence layer is not part of the script, so its failures are inputs:
  \<open>query_raises\<close> says that the query fails, \<open>execution_delete_raises\<close> and
  \<open>liveaction_delete_raises\<close> list the ids whose delete the store rejects.
\<close>

record world =
  executions :: "execution_db list"
  liveactions :: "liveaction_db list"
  query_raises :: bool
  execution_delete_raises :: "string list"
  liveaction_delete_raises :: "string list"
  DELETED_COUNT :: nat
  LOG :: "(level \<times> message) list"
  calls :: "store_call list"

subsection \<open>Python truthiness and the logger\<close>

text \<open>\<open>not x\<close> for a value that is \<open>None\<close> or a string.\<close>

fun falsy :: "string option \<Rightarrow> bool" where
  "falsy None = True"
| "falsy (Some s) = (s = [])"

definition LOG_error :: "message \<Rightarrow> world \<Rightarrow> world" where
  "LOG_error m w = w\<lparr>LOG := LOG w @ [(ERROR, m)]\<rparr>"

definition LOG_info :: "message \<Rightarrow> world \<Rightarrow> world" where
  "LOG_info m w = w\<lparr>LOG := LOG w @ [(INFO, m)]\<rparr>"

definition LOG_exception :: "message \<Rightarrow> world \<Rightarrow> world" where
  "LOG_exception m w = w\<lparr>LOG := LOG w @ [(EXCEPTION, m)]\<rparr>"

subsection \<open>The persistence layer and the constants\<close>

text \<open>
  Modelled from the spec: \<open>st2common.constants.action\<close> is not among the sources. The
  spec names the in-progress states: running, scheduled, requested, canceling, delayed.
\<close>

definition LIVEACTION_STATUS_RUNNING :: string where
  "LIVEACTION_STATUS_RUNNING = ''running''"

definition LIVEACTION_STATUS_SCHEDULED :: string where
  "LIVEACTION_STATUS_SCHEDULED = ''scheduled''"

definition LIVEACTION_STATUS_REQUESTED :: string where
  "LIVEACTION_STATUS_REQUESTED = ''requested''"

definition LIVEACTION_STATUS_CANCELING :: string where
  "LIVEACTION_STATUS_CANCELING = ''canceling''"

definition LIVEACTION_STATUS_DELAYED :: string where
  "LIVEACTION_STATUS_DELAYED = ''delayed''"

text \<open>
  Modelled from the spec: \<open>st2common.util.isotime.parse\<close> is not among the sources. The
  spec compares the end timestamp with the cutoff itself, so the parsed value is the
  point in time that was passed in.
\<close>

definition isotime_parse :: "int \<Rightarrow> int" where
  "isotime_parse t = t"

text \<open>
  Modelled from the spec: \<open>ActionExecution.query\<close> is not among the sources. With the
  filter \<open>end_timestamp__lt\<close> it returns the stored executions whose end timestamp is
  strictly less than the bound, or raises when the store cannot be read.
\<close>

definition ActionExecution_query :: "int \<Rightarrow> world \<Rightarrow> (error + execution_db list) \<times> world" where
  "ActionExecution_query end_timestamp__lt w =
     (let w' = w\<lparr>calls := calls w @ [Query end_timestamp__lt]\<rparr>
      in if query_raises w then (Inl StoreError, w')
         else (Inr (filter (\<lambda>e. end_timestamp e < end_timestamp__lt) (executions w)), w'))"

text \<open>
  Modelled from the spec: \<open>LiveAction.get_by_id\<close> is not among the sources. An absent or
  empty id is not found, and so is an id that no stored LiveAction has; not found is an
  exception.
\<close>

definition LiveAction_get_by_id :: "string option \<Rightarrow> world \<Rightarrow> (error + liveaction_db) \<times> world" where
  "LiveAction_get_by_id liveaction_id w =
     (let w' = w\<lparr>calls := calls w @ [GetById liveaction_id]\<rparr>
      in case liveaction_id of
           None \<Rightarrow> (Inl ValueError, w')
         | Some i \<Rightarrow>
             if i = [] then (Inl ValueError, w')
             else (case find (\<lambda>l. la_id l = i) (liveactions w) of
                     None \<Rightarrow> (Inl DoesNotExist, w')
                   | Some l \<Rightarrow> (Inr l, w')))"

text \<open>
  Modelled from the spec: \<open>ActionExecution.delete\<close> and \<open>LiveAction.delete\<close> are not among
  the sources. A delete removes the document with that id, or raises when the store
  rejects it and then removes nothing.
\<close>

definition ActionExecution_delete :: "execution_db \<Rightarrow> world \<Rightarrow> (error + unit) \<times> world" where
  "ActionExecution_delete execution_db w =
     (let w' = w\<lparr>calls := calls w @ [DeleteExecution (ae_id execution_db)]\<rparr>
      in if ae_id execution_db \<in> set (execution_delete_raises w) then (Inl StoreError, w')
         else (Inr (), w'\<lparr>executions := filter (\<lambda>e. ae_id e \<noteq> ae_id execution_db) (executions w)\<rparr>))"

definition LiveAction_delete :: "liveaction_db \<Rightarrow> world \<Rightarrow> (error + unit) \<times> world" where
  "LiveAction_delete liveaction_db w =
     (let w' = w\<lparr>calls := calls w @ [DeleteLiveAction (la_id liveaction_db)]\<rparr>
      in if la_id liveaction_db \<in> set (liveaction_delete_raises w) then (Inl StoreError, w')
         else (Inr (), w'\<lparr>liveactions := filter (\<lambda>l. la_id l \<noteq> la_id liveaction_db) (liveactions w)\<rparr>))"

subsection \<open>The script\<close>

text \<open>Lines 43 to 47.\<close>

definition IN_PROGRESS_STATES :: "string list" where
  "IN_PROGRESS_STATES =
     [LIVEACTION_STATUS_RUNNING, LIVEACTION_STATUS_SCHEDULED, LIVEACTION_STATUS_REQUESTED,
      LIVEACTION_STATUS_CANCELING, LIVEACTION_STATUS_DELAYED]"

text \<open>
  Lines 71 to 96. The three \<open>try\<close> statements have bare \<open>except\<close> clauses: whatever the
  store raises is logged and dropped. The counter is incremented in the \<open>else\<close> clause of
  the lookup, that is when \<open>get_by_id\<close> returned.
\<close>

definition purge_models :: "execution_db \<Rightarrow> world \<Rightarrow> (error + unit) \<times> world" where
  "purge_models execution_db w0 =
     (let liveaction_id = map_of (liveaction execution_db) ''id'';
          w1 = (if falsy liveaction_id
                then LOG_error (Invalid_LiveAction_id execution_db) w0 else w0);
          (liveaction_db, w2) =
            (case LiveAction_get_by_id liveaction_id w1 of
               (Inl exn, w) \<Rightarrow> (None, LOG_exception (LiveAction_not_found liveaction_id) w)
             | (Inr l, w) \<Rightarrow> (Some l, w\<lparr>DELETED_COUNT := DELETED_COUNT w + 1\<rparr>))
      in case ActionExecution_delete execution_db w2 of
           (Inl exn, w3) \<Rightarrow>
             (Inr (), LOG_exception (Exception_deleting_Execution execution_db) w3)
         | (Inr u, w3) \<Rightarrow>
             (case liveaction_db of
                None \<Rightarrow> (Inr (), w3)
              | Some l \<Rightarrow>
                  (case LiveAction_delete l w3 of
                     (Inl exn, w4) \<Rightarrow> (Inr (), LOG_exception (Zombie_LiveAction l) w4)
                   | (Inr u', w4) \<Rightarrow> (Inr (), w4))))"

text \<open>Lines 99 to 107. The subscript \<open>liveaction['action']\<close> raises on a missing key.\<close>

definition should_delete :: "execution_db \<Rightarrow> string \<Rightarrow> int \<Rightarrow> error + bool" where
  "should_delete execution_db action_ref timestamp =
     (if status execution_db \<in> set IN_PROGRESS_STATES then Inr False
      else if action_ref \<noteq> [] then
        (case map_of (liveaction execution_db) ''action'' of
           None \<Rightarrow> Inl KeyError
         | Some a \<Rightarrow> Inr (a = action_ref \<and> start_timestamp execution_db < timestamp))
      else Inr (start_timestamp execution_db < timestamp))"

text \<open>Lines 124 and 125: the list comprehension; an exception in the test ends it.\<close>

fun executions_to_delete :: "execution_db list \<Rightarrow> string \<Rightarrow> int \<Rightarrow> error + execution_db list" where
  "executions_to_delete [] action_ref timestamp = Inr []"
| "executions_to_delete (execution # rest) action_ref timestamp =
     (case should_delete execution action_ref timestamp of
        Inl exn \<Rightarrow> Inl exn
      | Inr keep \<Rightarrow>
          (case executions_to_delete rest action_ref timestamp of
             Inl exn \<Rightarrow> Inl exn
           | Inr kept \<Rightarrow> Inr (if keep then execution # kept else kept)))"

text \<open>
  Lines 122 to 125: the store query and the refinement, which the spec calls
  \<open>selectCandidates\<close>.
\<close>

definition selectCandidates :: "int \<Rightarrow> string \<Rightarrow> world \<Rightarrow> (error + execution_db list) \<times> world" where
  "selectCandidates timestamp action_ref w =
     (case ActionExecution_query (isotime_parse timestamp) w of
        (Inl exn, w') \<Rightarrow> (Inl exn, w')
      | (Inr found, w') \<Rightarrow> (executions_to_delete found action_ref timestamp, w'))"

text \<open>Lines 129 and 130: the loop over the candidates.\<close>

fun purge_loop :: "execution_db list \<Rightarrow> world \<Rightarrow> (error + unit) \<times> world" where
  "purge_loop [] w = (Inr (), w)"
| "purge_loop (execution_db # rest) w =
     (case purge_models execution_db w of
        (Inl exn, w') \<Rightarrow> (Inl exn, w')
      | (Inr u, w') \<Rightarrow> purge_loop rest w')"

text \<open>
  Lines 110 to 133. The timestamp is a datetime or \<open>None\<close>; the action reference is a
  string or \<open>None\<close>. Nothing in the function assigns \<open>DELETED_COUNT\<close>.
\<close>

definition purge_executions :: "int option \<Rightarrow> string option \<Rightarrow> world \<Rightarrow> (error + unit) \<times> world" where
  "purge_executions timestamp action_ref w =
     (case timestamp of
        None \<Rightarrow> (Inr (), LOG_error Specify_a_valid_timestamp w)
      | Some ts \<Rightarrow>
          (let action_ref' = (if falsy action_ref then [] else (case action_ref of Some a \<Rightarrow> a | None \<Rightarrow> []));
               w1 = LOG_info (Purging_older_than ts) w
           in case selectCandidates ts action_ref' w1 of
                (Inl exn, w2) \<Rightarrow> (Inl exn, w2)
              | (Inr to_delete, w2) \<Rightarrow>
                  (let w3 = LOG_info (Total_to_delete (length to_delete)) w2
                   in case purge_loop to_delete w3 of
                        (Inl exn, w4) \<Rightarrow> (Inl exn, w4)
                      | (Inr u, w4) \<Rightarrow> (Inr (), LOG_info (Total_deleted (DELETED_COUNT w4)) w4))))"

text \<open>
  Lines 136 to 154, without option registration, setup and teardown. The configured
  timestamp is a string or \<open>None\<close>; \<open>strptime\<close>, the parser of the standard library, is a
  parameter. The function returns 1 or \<open>None\<close>, and \<open>sys.exit\<close> turns that into the exit
  status.
\<close>

definition main :: "(string \<Rightarrow> error + int) \<Rightarrow> string option \<Rightarrow> string option \<Rightarrow> world \<Rightarrow> (error + int option) \<times> world" where
  "main strptime timestamp action_ref w =
     (if falsy timestamp
      then (Inr (Some 1), LOG_error Please_supply_a_timestamp w)
      else (case strptime (case timestamp of Some s \<Rightarrow> s | None \<Rightarrow> []) of
              Inl exn \<Rightarrow> (Inl exn, w)
            | Inr ts \<Rightarrow>
                (case purge_executions (Some ts) action_ref w of
                   (Inl exn, w') \<Rightarrow> (Inl exn, w')
                 | (Inr u, w') \<Rightarrow> (Inr None, w'))))"

definition sys_exit :: "error + int option \<Rightarrow> int" where
  "sys_exit r = (case r of Inl exn \<Rightarrow> 1 | Inr None \<Rightarrow> 0 | Inr (Some n) \<Rightarrow> n)"

subsection \<open>Reading the record of store calls\<close>

text \<open>The ids of the executions whose delete was attempted, in the order of the attempts.\<close>

fun execution_delete_calls :: "store_call list \<Rightarrow> string list" where
  "execution_delete_calls [] = []"
| "execution_delete_calls (DeleteExecution i # cs) = i # execution_delete_calls cs"
| "execution_delete_calls (c # cs) = execution_delete_calls cs"

subsection \<open>A small store\<close>

text \<open>
  One finished execution \<open>e1\<close> of the action \<open>core.local\<close>, started at 0 and ended at 1,
  and the LiveAction \<open>l1\<close> it refers to. The store accepts every call.
\<close>

definition ex_parent :: execution_db where
  "ex_parent = \<lparr>ae_id = ''e1'', status = ''succeeded'', start_timestamp = 0, end_timestamp = 1,
                liveaction = [(''id'', ''l1''), (''action'', ''core.local'')]\<rparr>"

definition ex_child :: liveaction_db where
  "ex_child = \<lparr>la_id = ''l1'', la_action = ''core.local''\<rparr>"

definition ex_world :: world where
  "ex_world = \<lparr>executions = [ex_parent], liveactions = [ex_child], query_raises = False,
               execution_delete_raises = [], liveaction_delete_raises = [],
               DELETED_COUNT = 0, LOG = [], calls = []\<rparr>"

section \<open>Properties\<close>

subsection \<open>The store calls and the per-candidate step\<close>

lemmas store_defs = LiveAction_get_by_id_def ActionExecution_delete_def LiveAction_delete_def
  LOG_error_def LOG_info_def LOG_exception_def

lemma get_by_id_fst_LOG [simp]:
  "fst (LiveAction_get_by_id i (LOG_error m w)) = fst (LiveAction_get_by_id i w)"
  by (simp add: store_defs Let_def split: option.splits)

lemma purge_models_fst: "fst (purge_models e w) = Inr ()"
  by (simp add: purge_models_def store_defs Let_def split: option.splits prod.splits sum.splits)

lemma purge_models_flags:
  "query_raises (snd (purge_models e w)) = query_raises w"
  "execution_delete_raises (snd (purge_models e w)) = execution_delete_raises w"
  "liveaction_delete_raises (snd (purge_models e w)) = liveaction_delete_raises w"
  by (simp_all add: purge_models_def store_defs Let_def split: option.splits prod.splits sum.splits)

lemma purge_models_executions:
  "executions (snd (purge_models e w)) =
     (if ae_id e \<in> set (execution_delete_raises w) then executions w
      else filter (\<lambda>x. ae_id x \<noteq> ae_id e) (executions w))"
  by (simp add: purge_models_def store_defs Let_def split: option.splits prod.splits sum.splits)

lemma purge_models_DELETED_COUNT:
  "DELETED_COUNT (snd (purge_models e w)) =
     DELETED_COUNT w +
       (case fst (LiveAction_get_by_id (map_of (liveaction e) ''id'') w) of Inl exn \<Rightarrow> 0 | Inr l \<Rightarrow> 1)"
  by (simp add: purge_models_def store_defs Let_def split: option.splits prod.splits sum.splits)

lemma purge_models_calls:
  "calls (snd (purge_models e w)) =
     calls w @ [GetById (map_of (liveaction e) ''id''), DeleteExecution (ae_id e)] @
       (case fst (LiveAction_get_by_id (map_of (liveaction e) ''id'') w) of
          Inl exn \<Rightarrow> []
        | Inr l \<Rightarrow> if ae_id e \<in> set (execution_delete_raises w) then [] else [DeleteLiveAction (la_id l)])"
  by (simp add: purge_models_def store_defs Let_def split: option.splits prod.splits sum.splits)

lemma purge_models_liveactions:
  "liveactions (snd (purge_models e w)) =
     (case fst (LiveAction_get_by_id (map_of (liveaction e) ''id'') w) of
        Inl exn \<Rightarrow> liveactions w
      | Inr l \<Rightarrow> if ae_id e \<in> set (execution_delete_raises w) \<or> la_id l \<in> set (liveaction_delete_raises w)
                 then liveactions w else filter (\<lambda>x. la_id x \<noteq> la_id l) (liveactions w))"
  by (simp add: purge_models_def store_defs Let_def split: option.splits prod.splits sum.splits)

lemma purge_models_LOG:
  "LOG (snd (purge_models e w)) =
     LOG w @
     (if falsy (map_of (liveaction e) ''id'') then [(ERROR, Invalid_LiveAction_id e)] else []) @
     (case fst (LiveAction_get_by_id (map_of (liveaction e) ''id'') w) of
        Inl exn \<Rightarrow> [(EXCEPTION, LiveAction_not_found (map_of (liveaction e) ''id''))] @
                   (if ae_id e \<in> set (execution_delete_raises w) then [(EXCEPTION, Exception_deleting_Execution e)] else [])
      | Inr l \<Rightarrow> if ae_id e \<in> set (execution_delete_raises w) then [(EXCEPTION, Exception_deleting_Execution e)]
                 else if la_id l \<in> set (liveaction_delete_raises w) then [(EXCEPTION, Zombie_LiveAction l)] else [])"
  by (simp add: purge_models_def store_defs Let_def split: option.splits prod.splits sum.splits)

subsection \<open>The loop over the candidates\<close>

lemma execution_delete_calls_append:
  "execution_delete_calls (xs @ ys) = execution_delete_calls xs @ execution_delete_calls ys"
  by (induction xs rule: execution_delete_calls.induct) simp_all

lemma purge_loop_fst: "fst (purge_loop es w) = Inr ()"
proof (induction es arbitrary: w)
  case Nil
  show ?case by simp
next
  case (Cons e es)
  obtain r w' where pm: "purge_models e w = (r, w')" by (cases "purge_models e w")
  with purge_models_fst [of e w] have "r = Inr ()" by simp
  with pm Cons show ?case by simp
qed

lemma purge_loop_Cons:
  "purge_loop (e # es) w = purge_loop es (snd (purge_models e w))"
  using purge_models_fst [of e w] by (cases "purge_models e w") simp

lemma purge_loop_flags:
  "query_raises (snd (purge_loop es w)) = query_raises w"
  "execution_delete_raises (snd (purge_loop es w)) = execution_delete_raises w"
  "liveaction_delete_raises (snd (purge_loop es w)) = liveaction_delete_raises w"
  by (induction es arbitrary: w; simp add: purge_loop_Cons purge_models_flags del: purge_loop.simps(2))+

lemma purge_loop_executions:
  "executions (snd (purge_loop es w)) =
     filter (\<lambda>x. ae_id x \<in> ae_id ` set es \<longrightarrow> ae_id x \<in> set (execution_delete_raises w)) (executions w)"
proof (induction es arbitrary: w)
  case Nil
  show ?case by simp
next
  case (Cons e es)
  show ?case
    unfolding purge_loop_Cons Cons.IH purge_models_flags purge_models_executions
    by (auto intro: filter_cong)
qed

lemma purge_loop_execution_delete_calls:
  "execution_delete_calls (calls (snd (purge_loop es w))) =
     execution_delete_calls (calls w) @ map ae_id es"
proof (induction es arbitrary: w)
  case Nil
  show ?case by simp
next
  case (Cons e es)
  show ?case
    unfolding purge_loop_Cons Cons.IH purge_models_calls
    by (simp add: execution_delete_calls_append split: sum.splits)
qed

lemma purge_models_shift:
  "purge_models e (w\<lparr>DELETED_COUNT := DELETED_COUNT w + k\<rparr>) =
     (fst (purge_models e w),
      (snd (purge_models e w))\<lparr>DELETED_COUNT := DELETED_COUNT (snd (purge_models e w)) + k\<rparr>)"
  by (simp add: purge_models_def store_defs Let_def split: option.splits prod.splits sum.splits)

lemma purge_loop_shift:
  "purge_loop es (w\<lparr>DELETED_COUNT := DELETED_COUNT w + k\<rparr>) =
     (fst (purge_loop es w),
      (snd (purge_loop es w))\<lparr>DELETED_COUNT := DELETED_COUNT (snd (purge_loop es w)) + k\<rparr>)"
proof (induction es arbitrary: w)
  case Nil
  show ?case by simp
next
  case (Cons e es)
  show ?case
    unfolding purge_loop_Cons purge_models_shift snd_conv Cons.IH ..
qed

text \<open>
  The loop is the per-candidate step applied to the candidates in order, and what the
  steps do to the store and to the counter does not depend on the log or on the record
  of calls.
\<close>

lemma get_by_id_fst_cong:
  "liveactions w = liveactions w' \<Longrightarrow>
   fst (LiveAction_get_by_id i w) = fst (LiveAction_get_by_id i w')"
  by (simp add: LiveAction_get_by_id_def Let_def split: option.splits)

lemma purge_loop_fold:
  "snd (purge_loop es w) = fold (\<lambda>e v. snd (purge_models e v)) es w"
proof (induction es arbitrary: w)
  case Nil
  show ?case by simp
next
  case (Cons e es)
  show ?case unfolding purge_loop_Cons Cons.IH by simp
qed

lemma purge_models_same_store:
  assumes "executions w = executions w'" and "liveactions w = liveactions w'"
    and "execution_delete_raises w = execution_delete_raises w'"
    and "liveaction_delete_raises w = liveaction_delete_raises w'"
    and "DELETED_COUNT w = DELETED_COUNT w'"
  shows "executions (snd (purge_models e w)) = executions (snd (purge_models e w'))"
    and "liveactions (snd (purge_models e w)) = liveactions (snd (purge_models e w'))"
    and "execution_delete_raises (snd (purge_models e w)) = execution_delete_raises (snd (purge_models e w'))"
    and "liveaction_delete_raises (snd (purge_models e w)) = liveaction_delete_raises (snd (purge_models e w'))"
    and "DELETED_COUNT (snd (purge_models e w)) = DELETED_COUNT (snd (purge_models e w'))"
  unfolding purge_models_executions purge_models_liveactions purge_models_flags
    purge_models_DELETED_COUNT
    get_by_id_fst_cong [OF assms(2), of "map_of (liveaction e) ''id''"]
    assms(1) assms(2) assms(3) assms(4) assms(5)
  by (rule refl)+

lemma fold_purge_models_same_store:
  assumes "executions w = executions w'" and "liveactions w = liveactions w'"
    and "execution_delete_raises w = execution_delete_raises w'"
    and "liveaction_delete_raises w = liveaction_delete_raises w'"
    and "DELETED_COUNT w = DELETED_COUNT w'"
  shows "DELETED_COUNT (fold (\<lambda>e v. snd (purge_models e v)) es w) =
         DELETED_COUNT (fold (\<lambda>e v. snd (purge_models e v)) es w')"
  using assms
proof (induction es arbitrary: w w')
  case Nil
  then show ?case by simp
next
  case (Cons e es)
  have "DELETED_COUNT (fold (\<lambda>e v. snd (purge_models e v)) es (snd (purge_models e w))) =
        DELETED_COUNT (fold (\<lambda>e v. snd (purge_models e v)) es (snd (purge_models e w')))"
    by (rule Cons.IH) (rule purge_models_same_store [OF Cons.prems])+
  then show ?case by simp
qed

subsection \<open>The selection\<close>

lemma executions_to_delete_result:
  "executions_to_delete xs action_ref ts =
     (if action_ref \<noteq> [] \<and> (\<exists>e\<in>set xs. status e \<notin> set IN_PROGRESS_STATES \<and> map_of (liveaction e) ''action'' = None)
      then Inl KeyError
      else Inr (filter (\<lambda>e. status e \<notin> set IN_PROGRESS_STATES \<and> start_timestamp e < ts \<and>
                  (action_ref = [] \<or> map_of (liveaction e) ''action'' = Some action_ref)) xs))"
  by (induction xs) (auto simp: should_delete_def split: option.splits sum.splits)

lemma selectCandidates_fst:
  "fst (selectCandidates ts action_ref w) =
     (if query_raises w then Inl StoreError
      else executions_to_delete (filter (\<lambda>e. end_timestamp e < ts) (executions w)) action_ref ts)"
  by (simp add: selectCandidates_def ActionExecution_query_def isotime_parse_def Let_def)

lemma selectCandidates_snd:
  "snd (selectCandidates ts action_ref w) = w\<lparr>calls := calls w @ [Query ts]\<rparr>"
  by (simp add: selectCandidates_def ActionExecution_query_def isotime_parse_def Let_def)

lemmas status_defs = IN_PROGRESS_STATES_def LIVEACTION_STATUS_RUNNING_def
  LIVEACTION_STATUS_SCHEDULED_def LIVEACTION_STATUS_REQUESTED_def
  LIVEACTION_STATUS_CANCELING_def LIVEACTION_STATUS_DELAYED_def

subsection \<open>The run\<close>

text \<open>What \<open>purge_executions\<close> does once the selection has returned, or has raised.\<close>

lemma action_ref_default:
  "(if falsy action_ref then [] else (case action_ref of Some a \<Rightarrow> a | None \<Rightarrow> [])) =
   (case action_ref of None \<Rightarrow> [] | Some a \<Rightarrow> a)"
  by (cases action_ref) auto

lemma selectCandidates_split:
  "selectCandidates ts a w = (fst (selectCandidates ts a w), w\<lparr>calls := calls w @ [Query ts]\<rparr>)"
  using selectCandidates_snd [of ts a w] by (cases "selectCandidates ts a w") simp

lemma selectCandidates_fst_LOG_info:
  "fst (selectCandidates ts a (LOG_info m w)) = fst (selectCandidates ts a w)"
  by (simp add: selectCandidates_fst LOG_info_def)

lemma purge_loop_split:
  "purge_loop es w = (Inr (), snd (purge_loop es w))"
  using purge_loop_fst [of es w] by (cases "purge_loop es w") simp

lemma purge_executions_selected:
  assumes "fst (selectCandidates ts (case action_ref of None \<Rightarrow> [] | Some a \<Rightarrow> a) w) = Inr cands"
  shows "purge_executions (Some ts) action_ref w =
     (Inr (),
      LOG_info (Total_deleted (DELETED_COUNT (snd (purge_loop cands
          (LOG_info (Total_to_delete (length cands))
            ((LOG_info (Purging_older_than ts) w)\<lparr>calls := calls w @ [Query ts]\<rparr>))))))
        (snd (purge_loop cands
          (LOG_info (Total_to_delete (length cands))
            ((LOG_info (Purging_older_than ts) w)\<lparr>calls := calls w @ [Query ts]\<rparr>)))))"
proof -
  let ?a = "case action_ref of None \<Rightarrow> [] | Some a \<Rightarrow> a"
  let ?w1 = "LOG_info (Purging_older_than ts) w"
  have sel: "selectCandidates ts ?a ?w1 = (Inr cands, ?w1\<lparr>calls := calls w @ [Query ts]\<rparr>)"
    using selectCandidates_split [of ts ?a ?w1] assms
    by (simp add: selectCandidates_fst_LOG_info) (simp add: LOG_info_def)
  show ?thesis
    unfolding purge_executions_def action_ref_default
    apply (simp add: Let_def sel)
    apply (subst purge_loop_split)
    apply simp
    done
qed

lemma purge_executions_raised:
  assumes "fst (selectCandidates ts (case action_ref of None \<Rightarrow> [] | Some a \<Rightarrow> a) w) = Inl exn"
  shows "purge_executions (Some ts) action_ref w =
     (Inl exn, (LOG_info (Purging_older_than ts) w)\<lparr>calls := calls w @ [Query ts]\<rparr>)"
proof -
  let ?a = "case action_ref of None \<Rightarrow> [] | Some a \<Rightarrow> a"
  let ?w1 = "LOG_info (Purging_older_than ts) w"
  have sel: "selectCandidates ts ?a ?w1 = (Inl exn, ?w1\<lparr>calls := calls w @ [Query ts]\<rparr>)"
    using selectCandidates_split [of ts ?a ?w1] assms
    by (simp add: selectCandidates_fst_LOG_info) (simp add: LOG_info_def)
  show ?thesis
    unfolding purge_executions_def action_ref_default
    by (simp add: Let_def sel)
qed

lemma purge_loop_Nil_run:
  assumes "fst (selectCandidates ts (case action_ref of None \<Rightarrow> [] | Some a \<Rightarrow> a) w) = Inr []"
  shows "purge_executions (Some ts) action_ref w =
     (Inr (), w\<lparr>LOG := LOG w @ [(INFO, Purging_older_than ts), (INFO, Total_to_delete 0),
                                (INFO, Total_deleted (DELETED_COUNT w))],
               calls := calls w @ [Query ts]\<rparr>)"
  unfolding purge_executions_selected [OF assms]
  by (simp add: LOG_info_def)

lemma rerun_selects_nothing:
  assumes sel: "fst (selectCandidates ts a w) = Inr cands"
    and ok: "\<forall>e\<in>set cands. ae_id e \<notin> set (execution_delete_raises w)"
    and ex: "executions w' = filter (\<lambda>x. ae_id x \<in> ae_id ` set cands \<longrightarrow> ae_id x \<in> set (execution_delete_raises w)) (executions w)"
    and q: "query_raises w' = query_raises w"
  shows "fst (selectCandidates ts a w') = Inr []"
proof -
  let ?P = "\<lambda>e. status e \<notin> set IN_PROGRESS_STATES \<and> start_timestamp e < ts \<and>
                  (a = [] \<or> map_of (liveaction e) ''action'' = Some a)"
  let ?Q = "\<lambda>e. end_timestamp e < ts"
  let ?K = "\<lambda>xs. a \<noteq> [] \<and> (\<exists>e\<in>set xs. status e \<notin> set IN_PROGRESS_STATES \<and> map_of (liveaction e) ''action'' = None)"
  from sel have nq: "\<not> query_raises w"
    by (auto simp: selectCandidates_fst split: if_splits)
  from sel nq have etd: "executions_to_delete (filter ?Q (executions w)) a ts = Inr cands"
    by (simp add: selectCandidates_fst)
  have nk: "\<not> ?K (filter ?Q (executions w))"
  proof
    assume "?K (filter ?Q (executions w))"
    then have "executions_to_delete (filter ?Q (executions w)) a ts = Inl KeyError"
      unfolding executions_to_delete_result by (rule if_P)
    with etd show False by simp
  qed
  then have "executions_to_delete (filter ?Q (executions w)) a ts =
      Inr (filter ?P (filter ?Q (executions w)))"
    unfolding executions_to_delete_result by (rule if_not_P)
  with etd have c: "cands = filter ?P (filter ?Q (executions w))"
    by simp
  have sub: "set (executions w') \<subseteq> set (executions w)"
    unfolding ex by auto
  from nk sub have nk': "\<not> ?K (filter ?Q (executions w'))"
    by auto
  have "filter ?P (filter ?Q (executions w')) = []"
  proof (rule ccontr)
    assume "filter ?P (filter ?Q (executions w')) \<noteq> []"
    then obtain e where e: "e \<in> set (executions w')" "?P e" "?Q e"
      by (auto simp: filter_empty_conv)
    from e sub have "e \<in> set cands" unfolding c by auto
    moreover from this ok have "ae_id e \<notin> set (execution_delete_raises w)" by blast
    ultimately have "e \<notin> set (executions w')" unfolding ex by auto
    with e show False by simp
  qed
  with nq q nk' show ?thesis
    by (simp add: selectCandidates_fst executions_to_delete_result)
qed

lemma selectCandidates_shift:
  "selectCandidates ts a (w\<lparr>DELETED_COUNT := n\<rparr>) =
     (fst (selectCandidates ts a w), (snd (selectCandidates ts a w))\<lparr>DELETED_COUNT := n\<rparr>)"
  by (simp add: selectCandidates_def ActionExecution_query_def Let_def)

lemma purge_executions_DELETED_COUNT_shift:
  "DELETED_COUNT (snd (purge_executions t action_ref (w\<lparr>DELETED_COUNT := DELETED_COUNT w + k\<rparr>))) =
   DELETED_COUNT (snd (purge_executions t action_ref w)) + k"
proof (cases t)
  case None
  then show ?thesis by (simp add: purge_executions_def LOG_error_def)
next
  case (Some ts)
  let ?a = "case action_ref of None \<Rightarrow> [] | Some a \<Rightarrow> a"
  let ?wk = "w\<lparr>DELETED_COUNT := DELETED_COUNT w + k\<rparr>"
  have same: "fst (selectCandidates ts ?a ?wk) = fst (selectCandidates ts ?a w)"
    by (simp add: selectCandidates_fst)
  show ?thesis
  proof (cases "fst (selectCandidates ts ?a w)")
    case (Inl exn)
    with same have "fst (selectCandidates ts ?a ?wk) = Inl exn" by simp
    from purge_executions_raised [OF this] purge_executions_raised [OF Inl] Some
    show ?thesis by (simp add: LOG_info_def)
  next
    case (Inr cands)
    with same have k: "fst (selectCandidates ts ?a ?wk) = Inr cands" by simp
    let ?v = "LOG_info (Total_to_delete (length cands))
            ((LOG_info (Purging_older_than ts) w)\<lparr>calls := calls w @ [Query ts]\<rparr>)"
    have v: "LOG_info (Total_to_delete (length cands))
            ((LOG_info (Purging_older_than ts) ?wk)\<lparr>calls := calls ?wk @ [Query ts]\<rparr>) =
          ?v\<lparr>DELETED_COUNT := DELETED_COUNT ?v + k\<rparr>"
      by (simp add: LOG_info_def)
    show ?thesis
      unfolding Some purge_executions_selected [OF k] purge_executions_selected [OF Inr] v
        purge_loop_shift
      by (simp add: LOG_info_def)
  qed
qed

subsection \<open>Evaluation at the small store\<close>

lemmas run_defs = purge_executions_def selectCandidates_def
  should_delete_def purge_models_def ActionExecution_query_def isotime_parse_def store_defs
  status_defs Let_def

lemmas ex_defs = ex_world_def ex_parent_def ex_child_def

section \<open>The claims\<close>

text \<open>
  Claim C1, as the code has it. The selection returns exactly the stored executions whose
  end timestamp is strictly less than the cutoff, whose start timestamp is strictly less
  than the cutoff as well (the test of \<open>_should_delete\<close>), whose status is not an
  in-progress state and, when the action-ref filter is not empty, whose action reference
  equals the filter. It raises instead when the query fails, or when the filter is not
  empty and a queried execution that is not in progress has no \<open>'action'\<close> key.
\<close>

theorem selectCandidates_eligible:
  "fst (selectCandidates ts action_ref w) =
     (if query_raises w then Inl StoreError
      else if action_ref \<noteq> [] \<and>
              (\<exists>e\<in>set (executions w). end_timestamp e < ts \<and> status e \<notin> set IN_PROGRESS_STATES \<and>
                 map_of (liveaction e) ''action'' = None)
           then Inl KeyError
      else Inr (filter (\<lambda>e. end_timestamp e < ts \<and> start_timestamp e < ts \<and>
                          status e \<notin> set IN_PROGRESS_STATES \<and>
                          (action_ref = [] \<or> map_of (liveaction e) ''action'' = Some action_ref))
                  (executions w)))"
  unfolding selectCandidates_fst executions_to_delete_result
  by (auto intro: filter_cong)

text \<open>The statement of C1 at the small store, with the filter \<open>core.local\<close> and cutoff 3.\<close>

theorem selectCandidates_eligible_witness:
  "fst (selectCandidates 3 ''core.local'' ex_world) = Inr [ex_parent]"
  using selectCandidates_eligible [of 3 "''core.local''" ex_world]
  by (simp add: ex_world_def ex_parent_def status_defs)

text \<open>
  Claim C1 as it is written fails: an execution that ended before the cutoff with a
  terminal status and no filter is not returned when its start timestamp is not before
  the cutoff.
\<close>

theorem selectCandidates_late_start_counterexample:
  "ex_parent\<lparr>start_timestamp := 5\<rparr> \<in> set (executions (ex_world\<lparr>executions := [ex_parent\<lparr>start_timestamp := 5\<rparr>]\<rparr>)) \<and>
   end_timestamp (ex_parent\<lparr>start_timestamp := 5\<rparr>) < 3 \<and>
   status (ex_parent\<lparr>start_timestamp := 5\<rparr>) \<notin> set IN_PROGRESS_STATES \<and>
   fst (selectCandidates 3 [] (ex_world\<lparr>executions := [ex_parent\<lparr>start_timestamp := 5\<rparr>]\<rparr>)) = Inr []"
  by (simp add: selectCandidates_def ActionExecution_query_def isotime_parse_def Let_def
        should_delete_def ex_world_def ex_parent_def status_defs)

text \<open>
  Claim C2, at an input where the code departs from it. The store holds \<open>e1\<close> and its
  child \<open>l1\<close> and rejects the delete of \<open>e1\<close>. The run leaves both documents in the
  store, attempts no delete of the child and ends normally, as the claim says; but
  \<open>DELETED_COUNT\<close>, which the last log line reports as the number of execution models
  deleted, goes from 0 to 1, because the script increments it when the lookup of the
  child returns (lines 82 to 84) and not when a delete succeeds.
\<close>

theorem parent_delete_failure_counted:
  "purge_executions (Some 3) None (ex_world\<lparr>execution_delete_raises := [''e1'']\<rparr>) =
     (Inr (),
      ex_world\<lparr>execution_delete_raises := [''e1''],
        DELETED_COUNT := 1,
        LOG := [(INFO, Purging_older_than 3), (INFO, Total_to_delete 1),
                (EXCEPTION, Exception_deleting_Execution ex_parent), (INFO, Total_deleted 1)],
        calls := [Query 3, GetById (Some ''l1''), DeleteExecution ''e1'']\<rparr>)"
  by (simp add: run_defs ex_defs)

text \<open>
  Claim C3. An execution whose status is running, scheduled, requested, canceling or
  delayed is in no list that the selection returns, whatever its timestamps, the cutoff
  and the filter are.
\<close>

theorem in_progress_never_selected:
  assumes "status e \<in> {''running'', ''scheduled'', ''requested'', ''canceling'', ''delayed''}"
  shows "\<forall>xs. fst (selectCandidates ts action_ref w) = Inr xs \<longrightarrow> e \<notin> set xs"
  using assms unfolding selectCandidates_fst executions_to_delete_result
  by (auto simp: status_defs split: if_splits)

text \<open>C3 on a store with a running and a finished execution of the same age.\<close>

theorem in_progress_never_selected_witness:
  "fst (selectCandidates 3 [] (ex_world\<lparr>executions := [ex_parent\<lparr>status := ''running''\<rparr>, ex_parent]\<rparr>)) = Inr [ex_parent] \<and>
   ex_parent\<lparr>status := ''running''\<rparr> \<notin> set [ex_parent]"
proof -
  have h: "status (ex_parent\<lparr>status := ''running''\<rparr>) \<in> {''running'', ''scheduled'', ''requested'', ''canceling'', ''delayed''}"
    by simp
  have r: "fst (selectCandidates 3 [] (ex_world\<lparr>executions := [ex_parent\<lparr>status := ''running''\<rparr>, ex_parent]\<rparr>)) = Inr [ex_parent]"
    by (simp add: selectCandidates_def ActionExecution_query_def isotime_parse_def Let_def
        should_delete_def ex_world_def ex_parent_def status_defs)
  from in_progress_never_selected [OF h, of 3 "[]" "ex_world\<lparr>executions := [ex_parent\<lparr>status := ''running''\<rparr>, ex_parent]\<rparr>"] r
  show ?thesis by blast
qed

text \<open>
  Claim C4, as the code has it. When the child is resolved, the store accepts the delete
  of the parent and rejects the delete of the child, the step logs the zombie, adds one to
  \<open>DELETED_COUNT\<close>, the only counter of the script, removes the parent, leaves the child,
  and calls the delete of the child exactly once.
\<close>

theorem child_delete_failure_zombie:
  assumes "fst (LiveAction_get_by_id (map_of (liveaction e) ''id'') w) = Inr l"
    and "ae_id e \<notin> set (execution_delete_raises w)"
    and "la_id l \<in> set (liveaction_delete_raises w)"
  shows "fst (purge_models e w) = Inr () \<and>
    LOG (snd (purge_models e w)) = LOG w @ [(EXCEPTION, Zombie_LiveAction l)] \<and>
    DELETED_COUNT (snd (purge_models e w)) = DELETED_COUNT w + 1 \<and>
    calls (snd (purge_models e w)) =
      calls w @ [GetById (map_of (liveaction e) ''id''), DeleteExecution (ae_id e),
                 DeleteLiveAction (la_id l)] \<and>
    executions (snd (purge_models e w)) = filter (\<lambda>x. ae_id x \<noteq> ae_id e) (executions w) \<and>
    liveactions (snd (purge_models e w)) = liveactions w"
proof -
  have nf: "\<not> falsy (map_of (liveaction e) ''id'')"
    using assms(1) by (auto simp: LiveAction_get_by_id_def Let_def split: option.splits)
  show ?thesis
    using assms nf
    by (simp add: purge_models_fst purge_models_LOG purge_models_DELETED_COUNT purge_models_calls
        purge_models_executions purge_models_liveactions)
qed

text \<open>C4 at the small store, when the store rejects the delete of \<open>l1\<close>.\<close>

theorem child_delete_failure_zombie_witness:
  "LOG (snd (purge_models ex_parent (ex_world\<lparr>liveaction_delete_raises := [''l1'']\<rparr>))) =
     [(EXCEPTION, Zombie_LiveAction ex_child)] \<and>
   DELETED_COUNT (snd (purge_models ex_parent (ex_world\<lparr>liveaction_delete_raises := [''l1'']\<rparr>))) = 1 \<and>
   calls (snd (purge_models ex_parent (ex_world\<lparr>liveaction_delete_raises := [''l1'']\<rparr>))) =
     [GetById (Some ''l1''), DeleteExecution ''e1'', DeleteLiveAction ''l1''] \<and>
   executions (snd (purge_models ex_parent (ex_world\<lparr>liveaction_delete_raises := [''l1'']\<rparr>))) = [] \<and>
   liveactions (snd (purge_models ex_parent (ex_world\<lparr>liveaction_delete_raises := [''l1'']\<rparr>))) = [ex_child]"
proof -
  let ?w = "ex_world\<lparr>liveaction_delete_raises := [''l1'']\<rparr>"
  have a: "fst (LiveAction_get_by_id (map_of (liveaction ex_parent) ''id'') ?w) = Inr ex_child"
    by (simp add: LiveAction_get_by_id_def Let_def ex_defs)
  have b: "ae_id ex_parent \<notin> set (execution_delete_raises ?w)"
    by (simp add: ex_defs)
  have c: "la_id ex_child \<in> set (liveaction_delete_raises ?w)"
    by (simp add: ex_defs)
  show ?thesis
    using child_delete_failure_zombie [OF a b c]
    by (simp add: ex_defs)
qed

text \<open>
  Claim C4 as it is written needs a count of orphaned children. The script keeps none:
  the run that leaves the child \<open>l1\<close> behind and the run that deletes it end with the same
  \<open>DELETED_COUNT\<close> and log the same totals.
\<close>

theorem no_orphan_count_counterexample:
  "liveactions (snd (purge_executions (Some 3) None (ex_world\<lparr>liveaction_delete_raises := [''l1'']\<rparr>))) = [ex_child] \<and>
   liveactions (snd (purge_executions (Some 3) None ex_world)) = [] \<and>
   DELETED_COUNT (snd (purge_executions (Some 3) None (ex_world\<lparr>liveaction_delete_raises := [''l1'']\<rparr>))) =
     DELETED_COUNT (snd (purge_executions (Some 3) None ex_world)) \<and>
   filter (\<lambda>line. fst line = INFO)
       (LOG (snd (purge_executions (Some 3) None (ex_world\<lparr>liveaction_delete_raises := [''l1'']\<rparr>)))) =
     filter (\<lambda>line. fst line = INFO) (LOG (snd (purge_executions (Some 3) None ex_world)))"
  by (simp add: run_defs ex_defs)

text \<open>
  Claim C5, as the code has it. When the \<open>'id'\<close> of the embedded liveaction is absent or
  empty, the step still calls the delete of the parent, and the parent is gone unless the
  store rejects that delete; no delete of a child is called and the LiveAction collection
  is unchanged; the log records the invalid id and the failed lookup, and no zombie. The
  script keeps no count of missing children, and the step leaves \<open>DELETED_COUNT\<close> as it
  was.
\<close>

theorem missing_child_id_parent_deleted:
  assumes "falsy (map_of (liveaction e) ''id'')"
  shows "fst (purge_models e w) = Inr () \<and>
    calls (snd (purge_models e w)) =
      calls w @ [GetById (map_of (liveaction e) ''id''), DeleteExecution (ae_id e)] \<and>
    executions (snd (purge_models e w)) =
      (if ae_id e \<in> set (execution_delete_raises w) then executions w
       else filter (\<lambda>x. ae_id x \<noteq> ae_id e) (executions w)) \<and>
    liveactions (snd (purge_models e w)) = liveactions w \<and>
    LOG (snd (purge_models e w)) =
      LOG w @ [(ERROR, Invalid_LiveAction_id e),
               (EXCEPTION, LiveAction_not_found (map_of (liveaction e) ''id''))] @
        (if ae_id e \<in> set (execution_delete_raises w)
         then [(EXCEPTION, Exception_deleting_Execution e)] else []) \<and>
    DELETED_COUNT (snd (purge_models e w)) = DELETED_COUNT w"
proof -
  have nf: "\<exists>exn. fst (LiveAction_get_by_id (map_of (liveaction e) ''id'') w) = Inl exn"
    using assms by (auto simp: LiveAction_get_by_id_def Let_def split: option.splits)
  then obtain exn where "fst (LiveAction_get_by_id (map_of (liveaction e) ''id'') w) = Inl exn" ..
  with assms show ?thesis
    by (simp add: purge_models_fst purge_models_LOG purge_models_calls
        purge_models_executions purge_models_liveactions purge_models_DELETED_COUNT)
qed

text \<open>C5 for the execution \<open>e1\<close> without the key \<open>'id'\<close>.\<close>

theorem missing_child_id_parent_deleted_witness:
  "executions (snd (purge_models (ex_parent\<lparr>liveaction := [(''action'', ''core.local'')]\<rparr>)
      (ex_world\<lparr>executions := [ex_parent\<lparr>liveaction := [(''action'', ''core.local'')]\<rparr>]\<rparr>))) = [] \<and>
   liveactions (snd (purge_models (ex_parent\<lparr>liveaction := [(''action'', ''core.local'')]\<rparr>)
      (ex_world\<lparr>executions := [ex_parent\<lparr>liveaction := [(''action'', ''core.local'')]\<rparr>]\<rparr>))) = [ex_child] \<and>
   LOG (snd (purge_models (ex_parent\<lparr>liveaction := [(''action'', ''core.local'')]\<rparr>)
      (ex_world\<lparr>executions := [ex_parent\<lparr>liveaction := [(''action'', ''core.local'')]\<rparr>]\<rparr>))) =
     [(ERROR, Invalid_LiveAction_id (ex_parent\<lparr>liveaction := [(''action'', ''core.local'')]\<rparr>)),
      (EXCEPTION, LiveAction_not_found None)] \<and>
   calls (snd (purge_models (ex_parent\<lparr>liveaction := [(''action'', ''core.local'')]\<rparr>)
      (ex_world\<lparr>executions := [ex_parent\<lparr>liveaction := [(''action'', ''core.local'')]\<rparr>]\<rparr>))) =
     [GetById None, DeleteExecution ''e1'']"
proof -
  have h: "falsy (map_of (liveaction (ex_parent\<lparr>liveaction := [(''action'', ''core.local'')]\<rparr>)) ''id'')"
    by simp
  show ?thesis
    using missing_child_id_parent_deleted [OF h,
      of "ex_world\<lparr>executions := [ex_parent\<lparr>liveaction := [(''action'', ''core.local'')]\<rparr>]\<rparr>"]
    by (simp add: ex_defs)
qed

text \<open>
  Claim C5 as it is written fails: the execution \<open>e1\<close> without the key \<open>'id'\<close> is a
  candidate, the store rejects its delete, and after the run it is still stored.
\<close>

theorem missing_child_id_rejected_delete_counterexample:
  "falsy (map_of (liveaction (ex_parent\<lparr>liveaction := [(''action'', ''core.local'')]\<rparr>)) ''id'') \<and>
   fst (selectCandidates 3 []
     (ex_world\<lparr>executions := [ex_parent\<lparr>liveaction := [(''action'', ''core.local'')]\<rparr>],
        execution_delete_raises := [''e1'']\<rparr>)) =
     Inr [ex_parent\<lparr>liveaction := [(''action'', ''core.local'')]\<rparr>] \<and>
   fst (purge_executions (Some 3) None
     (ex_world\<lparr>executions := [ex_parent\<lparr>liveaction := [(''action'', ''core.local'')]\<rparr>],
        execution_delete_raises := [''e1'']\<rparr>)) = Inr () \<and>
   executions (snd (purge_executions (Some 3) None
     (ex_world\<lparr>executions := [ex_parent\<lparr>liveaction := [(''action'', ''core.local'')]\<rparr>],
        execution_delete_raises := [''e1'']\<rparr>))) =
     [ex_parent\<lparr>liveaction := [(''action'', ''core.local'')]\<rparr>]"
  by (simp add: run_defs ex_defs)

text \<open>
  Claim C6. The per-candidate step returns normally whatever the lookup and the two
  deletes do, so does the loop, and the loop has attempted the delete of every candidate
  of the list, once each and in the order of the list.
\<close>

theorem candidates_isolated:
  "fst (purge_models e w) = Inr () \<and>
   fst (purge_loop es w) = Inr () \<and>
   execution_delete_calls (calls (snd (purge_loop es w))) =
     execution_delete_calls (calls w) @ map ae_id es"
  by (simp add: purge_models_fst purge_loop_fst purge_loop_execution_delete_calls)

text \<open>
  Claim C7. Without a timestamp \<open>purge_executions\<close> only logs an error: it makes no store
  call and leaves both collections as they are. \<open>main\<close>, given no timestamp or an empty
  one, returns 1, which is the exit status, without calling \<open>purge_executions\<close>.
\<close>

theorem missing_timestamp_aborts:
  "purge_executions None action_ref w =
     (Inr (), w\<lparr>LOG := LOG w @ [(ERROR, Specify_a_valid_timestamp)]\<rparr>) \<and>
   calls (snd (purge_executions None action_ref w)) = calls w \<and>
   executions (snd (purge_executions None action_ref w)) = executions w \<and>
   liveactions (snd (purge_executions None action_ref w)) = liveactions w \<and>
   main strptime None action_ref w =
     (Inr (Some 1), w\<lparr>LOG := LOG w @ [(ERROR, Please_supply_a_timestamp)]\<rparr>) \<and>
   main strptime (Some []) action_ref w =
     (Inr (Some 1), w\<lparr>LOG := LOG w @ [(ERROR, Please_supply_a_timestamp)]\<rparr>) \<and>
   sys_exit (fst (main strptime None action_ref w)) = 1 \<and>
   sys_exit (fst (main strptime (Some []) action_ref w)) = 1"
  by (simp add: purge_executions_def main_def sys_exit_def LOG_error_def)

text \<open>
  Claim C8, as the code has it. When the first run got its candidates and the store
  rejected the delete of none of them, the selection on the store it leaves returns no
  candidate, and a second run with the same arguments changes neither collection: it
  makes the query, no other store call, and logs its three lines.
\<close>

theorem second_run_finds_nothing:
  assumes sel: "fst (selectCandidates ts (case action_ref of None \<Rightarrow> [] | Some a \<Rightarrow> a) w) = Inr cands"
    and ok: "\<forall>e\<in>set cands. ae_id e \<notin> set (execution_delete_raises w)"
  shows "fst (purge_executions (Some ts) action_ref w) = Inr () \<and>
    fst (selectCandidates ts (case action_ref of None \<Rightarrow> [] | Some a \<Rightarrow> a)
          (snd (purge_executions (Some ts) action_ref w))) = Inr [] \<and>
    purge_executions (Some ts) action_ref (snd (purge_executions (Some ts) action_ref w)) =
      (Inr (),
       (snd (purge_executions (Some ts) action_ref w))
         \<lparr>LOG := LOG (snd (purge_executions (Some ts) action_ref w)) @
                 [(INFO, Purging_older_than ts), (INFO, Total_to_delete 0),
                  (INFO, Total_deleted (DELETED_COUNT (snd (purge_executions (Some ts) action_ref w))))],
          calls := calls (snd (purge_executions (Some ts) action_ref w)) @ [Query ts]\<rparr>)"
proof -
  let ?a = "case action_ref of None \<Rightarrow> [] | Some a \<Rightarrow> a"
  let ?w' = "snd (purge_executions (Some ts) action_ref w)"
  have r1: "fst (purge_executions (Some ts) action_ref w) = Inr ()"
    unfolding purge_executions_selected [OF sel] by simp
  have ex: "executions ?w' = filter (\<lambda>x. ae_id x \<in> ae_id ` set cands \<longrightarrow> ae_id x \<in> set (execution_delete_raises w)) (executions w)"
    unfolding purge_executions_selected [OF sel]
    by (simp add: LOG_info_def purge_loop_executions purge_loop_flags)
  have q: "query_raises ?w' = query_raises w"
    unfolding purge_executions_selected [OF sel]
    by (simp add: LOG_info_def purge_loop_flags)
  have s2: "fst (selectCandidates ts ?a ?w') = Inr []"
    by (rule rerun_selects_nothing [OF sel ok ex q])
  from r1 s2 purge_loop_Nil_run [OF s2] show ?thesis by simp
qed

text \<open>C8 at the small store.\<close>

theorem second_run_finds_nothing_witness:
  "fst (purge_executions (Some 3) None ex_world) = Inr () \<and>
   executions (snd (purge_executions (Some 3) None ex_world)) = [] \<and>
   fst (selectCandidates 3 [] (snd (purge_executions (Some 3) None ex_world))) = Inr [] \<and>
   executions (snd (purge_executions (Some 3) None (snd (purge_executions (Some 3) None ex_world)))) = [] \<and>
   calls (snd (purge_executions (Some 3) None (snd (purge_executions (Some 3) None ex_world)))) =
     calls (snd (purge_executions (Some 3) None ex_world)) @ [Query 3]"
proof -
  have sel: "fst (selectCandidates 3 (case None of None \<Rightarrow> [] | Some a \<Rightarrow> a) ex_world) = Inr [ex_parent]"
    by (simp add: run_defs ex_defs)
  have ok: "\<forall>e\<in>set [ex_parent]. ae_id e \<notin> set (execution_delete_raises ex_world)"
    by (simp add: ex_defs)
  have e: "executions (snd (purge_executions (Some 3) None ex_world)) = []"
    by (simp add: run_defs ex_defs)
  from second_run_finds_nothing [OF sel ok] e show ?thesis by simp
qed

text \<open>
  Claim C8 as it is written fails: an execution whose delete the store rejected in the
  first run is still stored, and the second run finds it again.
\<close>

theorem failed_parent_delete_found_again_counterexample:
  "fst (purge_executions (Some 3) None (ex_world\<lparr>execution_delete_raises := [''e1'']\<rparr>)) = Inr () \<and>
   fst (selectCandidates 3 []
     (snd (purge_executions (Some 3) None (ex_world\<lparr>execution_delete_raises := [''e1'']\<rparr>)))) = Inr [ex_parent]"
  by (simp add: run_defs ex_defs)

text \<open>
  Claim C9, as the code has it. \<open>DELETED_COUNT\<close> is a module-level variable that no run
  resets. The selection leaves it alone; a run adds to the value it finds exactly what
  the same run adds when started from 0; and the count a run reports in its last log
  line is that sum, the earlier runs' count included. Only the per-candidate step changes
  it: a run without a timestamp and a run whose selection raises leave it as it was, and
  after any other run it is what the steps for the candidates, applied in order to the
  state the run started in, make of it.
\<close>

theorem deleted_count_accumulates:
  "DELETED_COUNT (snd (selectCandidates ts a w)) = DELETED_COUNT w \<and>
   DELETED_COUNT (snd (purge_executions t action_ref w)) =
     DELETED_COUNT w + DELETED_COUNT (snd (purge_executions t action_ref (w\<lparr>DELETED_COUNT := 0\<rparr>))) \<and>
   (fst (purge_executions (Some ts) action_ref w) = Inr () \<longrightarrow>
      last (LOG (snd (purge_executions (Some ts) action_ref w))) =
        (INFO, Total_deleted (DELETED_COUNT w +
           DELETED_COUNT (snd (purge_executions (Some ts) action_ref (w\<lparr>DELETED_COUNT := 0\<rparr>)))))) \<and>
   DELETED_COUNT (snd (purge_executions None action_ref w)) = DELETED_COUNT w \<and>
   (\<forall>exn. fst (selectCandidates ts (case action_ref of None \<Rightarrow> [] | Some r \<Rightarrow> r) w) = Inl exn \<longrightarrow>
      DELETED_COUNT (snd (purge_executions (Some ts) action_ref w)) = DELETED_COUNT w) \<and>
   (\<forall>cands. fst (selectCandidates ts (case action_ref of None \<Rightarrow> [] | Some r \<Rightarrow> r) w) = Inr cands \<longrightarrow>
      DELETED_COUNT (snd (purge_executions (Some ts) action_ref w)) =
        DELETED_COUNT (fold (\<lambda>e v. snd (purge_models e v)) cands w))"
proof -
  let ?a = "case action_ref of None \<Rightarrow> [] | Some r \<Rightarrow> r"
  have shift: "\<And>t. DELETED_COUNT (snd (purge_executions t action_ref w)) =
     DELETED_COUNT w + DELETED_COUNT (snd (purge_executions t action_ref (w\<lparr>DELETED_COUNT := 0\<rparr>)))"
    using purge_executions_DELETED_COUNT_shift [of _ action_ref "w\<lparr>DELETED_COUNT := 0\<rparr>" "DELETED_COUNT w"]
    by simp
  have rep: "fst (purge_executions (Some ts) action_ref w) = Inr () \<longrightarrow>
      last (LOG (snd (purge_executions (Some ts) action_ref w))) =
        (INFO, Total_deleted (DELETED_COUNT w +
           DELETED_COUNT (snd (purge_executions (Some ts) action_ref (w\<lparr>DELETED_COUNT := 0\<rparr>)))))"
  proof (cases "fst (selectCandidates ts ?a w)")
    case (Inl exn)
    with purge_executions_raised [OF Inl] show ?thesis by simp
  next
    case (Inr cands)
    have "last (LOG (snd (purge_executions (Some ts) action_ref w))) =
        (INFO, Total_deleted (DELETED_COUNT (snd (purge_executions (Some ts) action_ref w))))"
      unfolding purge_executions_selected [OF Inr] by (simp add: LOG_info_def)
    with shift [of "Some ts"] show ?thesis by simp
  qed
  have sel: "DELETED_COUNT (snd (selectCandidates ts a w)) = DELETED_COUNT w"
    by (simp add: selectCandidates_snd)
  have none: "DELETED_COUNT (snd (purge_executions None action_ref w)) = DELETED_COUNT w"
    by (simp add: purge_executions_def LOG_error_def)
  have raised: "\<forall>exn. fst (selectCandidates ts ?a w) = Inl exn \<longrightarrow>
      DELETED_COUNT (snd (purge_executions (Some ts) action_ref w)) = DELETED_COUNT w"
    by (simp add: purge_executions_raised LOG_info_def)
  have looped: "\<forall>cands. fst (selectCandidates ts ?a w) = Inr cands \<longrightarrow>
      DELETED_COUNT (snd (purge_executions (Some ts) action_ref w)) =
        DELETED_COUNT (fold (\<lambda>e v. snd (purge_models e v)) cands w)"
  proof (intro allI impI)
    fix cands
    assume s: "fst (selectCandidates ts ?a w) = Inr cands"
    let ?v = "LOG_info (Total_to_delete (length cands))
            ((LOG_info (Purging_older_than ts) w)\<lparr>calls := calls w @ [Query ts]\<rparr>)"
    have "DELETED_COUNT (snd (purge_executions (Some ts) action_ref w)) =
        DELETED_COUNT (fold (\<lambda>e v. snd (purge_models e v)) cands ?v)"
      unfolding purge_executions_selected [OF s] purge_loop_fold
      by (simp add: LOG_info_def)
    also have "\<dots> = DELETED_COUNT (fold (\<lambda>e v. snd (purge_models e v)) cands w)"
      by (rule fold_purge_models_same_store) (simp_all add: LOG_info_def)
    finally show "DELETED_COUNT (snd (purge_executions (Some ts) action_ref w)) =
        DELETED_COUNT (fold (\<lambda>e v. snd (purge_models e v)) cands w)" .
  qed
  from sel shift [of t] rep none raised looped show ?thesis by blast
qed

text \<open>C9 at the small store, with a count of 7 left by earlier runs.\<close>

theorem deleted_count_accumulates_witness:
  "DELETED_COUNT (snd (purge_executions (Some 3) None (ex_world\<lparr>DELETED_COUNT := 7\<rparr>))) = 8 \<and>
   last (LOG (snd (purge_executions (Some 3) None (ex_world\<lparr>DELETED_COUNT := 7\<rparr>)))) =
     (INFO, Total_deleted 8) \<and>
   DELETED_COUNT (snd (purge_models ex_parent (ex_world\<lparr>DELETED_COUNT := 7\<rparr>))) = 8"
proof -
  have r: "fst (purge_executions (Some 3) None (ex_world\<lparr>DELETED_COUNT := 7\<rparr>)) = Inr ()"
    by (simp add: run_defs ex_defs)
  have z: "DELETED_COUNT (snd (purge_executions (Some 3) None (ex_world\<lparr>DELETED_COUNT := 7, DELETED_COUNT := 0\<rparr>))) = 1"
    by (simp add: run_defs ex_defs)
  have s: "fst (selectCandidates 3 (case None of None \<Rightarrow> [] | Some r \<Rightarrow> r) (ex_world\<lparr>DELETED_COUNT := 7\<rparr>)) = Inr [ex_parent]"
    by (simp add: run_defs ex_defs)
  from deleted_count_accumulates [of 3 "[]" "ex_world\<lparr>DELETED_COUNT := 7\<rparr>" "Some 3" None] r z s
  show ?thesis by simp
qed

text \<open>
  Claim C9 as it is written fails: after a first run has emptied the small store, a second
  run finds no candidate and makes no delete, and reports 1 deleted.
\<close>

theorem deleted_count_second_run_counterexample:
  "executions (snd (purge_executions (Some 3) None ex_world)) = [] \<and>
   liveactions (snd (purge_executions (Some 3) None ex_world)) = [] \<and>
   purge_executions (Some 3) None (snd (purge_executions (Some 3) None ex_world)) =
     (Inr (),
      (snd (purge_executions (Some 3) None ex_world))
        \<lparr>LOG := LOG (snd (purge_executions (Some 3) None ex_world)) @
            [(INFO, Purging_older_than 3), (INFO, Total_to_delete 0), (INFO, Total_deleted 1)],
         calls := calls (snd (purge_executions (Some 3) None ex_world)) @ [Query 3]\<rparr>)"
  by (simp add: run_defs ex_defs)

text \<open>
  Claim C10. With a timestamp, the action reference \<open>None\<close> gives the same result and the
  same final state as the empty string, the only other falsy value; with the empty
  filter the selection is every execution that is not in progress and that started and
  ended before the cutoff, whatever its action reference; and the run with \<open>None\<close> is the
  loop over exactly these executions, so it attempts the delete of each of them, in the
  order of the store.
\<close>

theorem falsy_action_ref_is_empty:
  "purge_executions (Some ts) None w = purge_executions (Some ts) (Some []) w \<and>
   fst (selectCandidates ts [] w) =
     (if query_raises w then Inl StoreError
      else Inr (filter (\<lambda>e. end_timestamp e < ts \<and> start_timestamp e < ts \<and>
                          status e \<notin> set IN_PROGRESS_STATES) (executions w))) \<and>
   purge_executions (Some ts) None w =
     (if query_raises w
      then (Inl StoreError, (LOG_info (Purging_older_than ts) w)\<lparr>calls := calls w @ [Query ts]\<rparr>)
      else (Inr (),
        LOG_info (Total_deleted (DELETED_COUNT (snd (purge_loop
            (filter (\<lambda>e. end_timestamp e < ts \<and> start_timestamp e < ts \<and>
                          status e \<notin> set IN_PROGRESS_STATES) (executions w))
            (LOG_info (Total_to_delete (length
                (filter (\<lambda>e. end_timestamp e < ts \<and> start_timestamp e < ts \<and>
                          status e \<notin> set IN_PROGRESS_STATES) (executions w))))
              ((LOG_info (Purging_older_than ts) w)\<lparr>calls := calls w @ [Query ts]\<rparr>))))))
          (snd (purge_loop
            (filter (\<lambda>e. end_timestamp e < ts \<and> start_timestamp e < ts \<and>
                          status e \<notin> set IN_PROGRESS_STATES) (executions w))
            (LOG_info (Total_to_delete (length
                (filter (\<lambda>e. end_timestamp e < ts \<and> start_timestamp e < ts \<and>
                          status e \<notin> set IN_PROGRESS_STATES) (executions w))))
              ((LOG_info (Purging_older_than ts) w)\<lparr>calls := calls w @ [Query ts]\<rparr>)))))) \<and>
   execution_delete_calls (calls (snd (purge_executions (Some ts) None w))) =
     execution_delete_calls (calls w) @
       (if query_raises w then []
        else map ae_id (filter (\<lambda>e. end_timestamp e < ts \<and> start_timestamp e < ts \<and>
                          status e \<notin> set IN_PROGRESS_STATES) (executions w)))"
proof -
  let ?sel = "filter (\<lambda>e. end_timestamp e < ts \<and> start_timestamp e < ts \<and>
                          status e \<notin> set IN_PROGRESS_STATES) (executions w)"
  have eq: "purge_executions (Some ts) None w = purge_executions (Some ts) (Some []) w"
    by (simp add: purge_executions_def)
  have s: "fst (selectCandidates ts [] w) =
     (if query_raises w then Inl StoreError else Inr ?sel)"
    unfolding selectCandidates_fst executions_to_delete_result
    by (auto intro: filter_cong)
  have run: "purge_executions (Some ts) None w =
     (if query_raises w
      then (Inl StoreError, (LOG_info (Purging_older_than ts) w)\<lparr>calls := calls w @ [Query ts]\<rparr>)
      else (Inr (),
        LOG_info (Total_deleted (DELETED_COUNT (snd (purge_loop ?sel
            (LOG_info (Total_to_delete (length ?sel))
              ((LOG_info (Purging_older_than ts) w)\<lparr>calls := calls w @ [Query ts]\<rparr>))))))
          (snd (purge_loop ?sel
            (LOG_info (Total_to_delete (length ?sel))
              ((LOG_info (Purging_older_than ts) w)\<lparr>calls := calls w @ [Query ts]\<rparr>))))))"
  proof (cases "query_raises w")
    case True
    with s have "fst (selectCandidates ts (case None of None \<Rightarrow> [] | Some a \<Rightarrow> a) w) = Inl StoreError"
      by simp
    from purge_executions_raised [OF this] True show ?thesis by simp
  next
    case False
    with s have "fst (selectCandidates ts (case None of None \<Rightarrow> [] | Some a \<Rightarrow> a) w) = Inr ?sel"
      by simp
    from purge_executions_selected [OF this] False show ?thesis by simp
  qed
  have c: "execution_delete_calls (calls (snd (purge_executions (Some ts) None w))) =
     execution_delete_calls (calls w) @ (if query_raises w then [] else map ae_id ?sel)"
  proof (cases "query_raises w")
    case True
    with run show ?thesis
      by (simp add: LOG_info_def execution_delete_calls_append)
  next
    case False
    with run show ?thesis
      by (simp add: LOG_info_def purge_loop_execution_delete_calls execution_delete_calls_append)
  qed
  from eq s run c show ?thesis by (intro conjI)
qed

text \<open>
  C10 on a store with two finished executions of different actions: both are selected
  and the delete of both is attempted.
\<close>

theorem falsy_action_ref_is_empty_witness:
  "purge_executions (Some 3) None (ex_world\<lparr>executions := [ex_parent, ex_parent\<lparr>ae_id := ''e2'', liveaction := [(''action'', ''core.remote'')]\<rparr>]\<rparr>) =
     purge_executions (Some 3) (Some []) (ex_world\<lparr>executions := [ex_parent, ex_parent\<lparr>ae_id := ''e2'', liveaction := [(''action'', ''core.remote'')]\<rparr>]\<rparr>) \<and>
   execution_delete_calls (calls (snd (purge_executions (Some 3) None
     (ex_world\<lparr>executions := [ex_parent, ex_parent\<lparr>ae_id := ''e2'', liveaction := [(''action'', ''core.remote'')]\<rparr>]\<rparr>)))) =
     [''e1'', ''e2'']"
proof -
  note t = falsy_action_ref_is_empty [of 3 "ex_world\<lparr>executions := [ex_parent, ex_parent\<lparr>ae_id := ''e2'', liveaction := [(''action'', ''core.remote'')]\<rparr>]\<rparr>"]
  note a = t [THEN conjunct1]
  note c = t [THEN conjunct2, THEN conjunct2, THEN conjunct2]
  from c have "execution_delete_calls (calls (snd (purge_executions (Some 3) None
     (ex_world\<lparr>executions := [ex_parent, ex_parent\<lparr>ae_id := ''e2'', liveaction := [(''action'', ''core.remote'')]\<rparr>]\<rparr>)))) =
     [''e1'', ''e2'']"
    by (simp add: ex_defs status_defs)
  with a show ?thesis by (rule conjI)
qed

end
